theory Spec2Isabelle
  imports
    Main
    "HOL-Library.Sublist"
    "HOL-Library.Char_ord"
    "HOL-Library.List_Lexorder"
    "HOL-Library.Product_Lexorder"
begin

section \<open>The sandboxed terminal of main.py\<close>

text \<open>
  The development embeds \<^verbatim>\<open>class Terminal\<close> of \<^verbatim>\<open>main.py\<close>: the path resolver
  \<^verbatim>\<open>_resolve_path\<close>, the dispatcher \<^verbatim>\<open>execute\<close> and the command handlers.

  What the Python standard library does underneath is modelled explicitly:
  \<^item> the file system is a finite table from absolute paths (lists of components) to
    nodes: directories, regular files and symbolic links;
  \<^item> \<^verbatim>\<open>Path.resolve()\<close> is the non-strict \<^verbatim>\<open>os.path.realpath\<close>: components are
    walked left to right, \<^verbatim>\<open>..\<close> pops lexically, a symbolic link is replaced by its
    target, missing components are kept. At most \<open>MAXSYMLINKS\<close> links are followed;
    beyond that the rest of the path is kept unresolved and normalised lexically,
    which is what the non-strict walk returns on a link cycle;
  \<^item> \<^verbatim>\<open>shlex.split\<close> is the POSIX-mode state machine of \<^verbatim>\<open>shlex.read_token\<close> with
    \<^verbatim>\<open>whitespace_split\<close> and no comment characters;
  \<^item> strings are byte strings without NUL, text written to standard output is kept
    as a list of write operations; permissions, times and the history file that
    \<^verbatim>\<open>readline\<close> keeps are not part of the model;
  \<^item> \<^verbatim>\<open>shutil.copy2\<close>, \<^verbatim>\<open>shutil.copytree\<close>, \<^verbatim>\<open>shutil.move\<close> and the host utilities
    behind \<^verbatim>\<open>ps\<close>, \<^verbatim>\<open>sysmon\<close>, \<^verbatim>\<open>df\<close> and \<^verbatim>\<open>history\<close> are parameters (a \<open>platform\<close>).
\<close>

subsection \<open>Paths\<close>

type_synonym path = "string list"

fun split_on :: "char \<Rightarrow> string \<Rightarrow> string list" where
  "split_on d [] = [[]]"
| "split_on d (c # cs) =
     (if c = d then [] # split_on d cs
      else (case split_on d cs of
              [] \<Rightarrow> [[c]]
            | w # ws \<Rightarrow> (c # w) # ws))"

text \<open>\<^verbatim>\<open>PurePosixPath(s).is_absolute()\<close>: the string starts with a slash.\<close>

definition is_absolute :: "string \<Rightarrow> bool" where
  "is_absolute s = (case s of [] \<Rightarrow> False | c # _ \<Rightarrow> c = CHR ''/'')"

text \<open>
  \<^verbatim>\<open>PurePosixPath(s).parts\<close> without the root marker: empty components and \<^verbatim>\<open>.\<close>
  are dropped when the path object is built, \<^verbatim>\<open>..\<close> is kept.
\<close>

definition parts :: "string \<Rightarrow> string list" where
  "parts s = filter (\<lambda>c. c \<noteq> [] \<and> c \<noteq> ''.'') (split_on (CHR ''/'') s)"

text \<open>\<^verbatim>\<open>p.name\<close> as the component list that \<^verbatim>\<open>root / p.name\<close> appends: nothing for \<^verbatim>\<open>/\<close>.\<close>

definition name :: "path \<Rightarrow> string list" where
  "name p = (if p = [] then [] else [last p])"

text \<open>\<^verbatim>\<open>p.relative_to(root)\<close> succeeds iff the parts of \<open>root\<close> start the parts of \<open>p\<close>.\<close>

definition relative_to :: "path \<Rightarrow> path \<Rightarrow> bool" where
  "relative_to p r = prefix r p"

definition str_path :: "path \<Rightarrow> string" where
  "str_path p = (if p = [] then ''/'' else concat (map (\<lambda>c. CHR ''/'' # c) p))"

subsection \<open>The file system\<close>

datatype node = Dir | File string | Link string

type_synonym filesystem = "(path \<times> node) list"

definition node_at :: "filesystem \<Rightarrow> path \<Rightarrow> node option" where
  "node_at fs p = (if p = [] then Some Dir else map_of fs p)"

definition readlink :: "filesystem \<Rightarrow> path \<Rightarrow> string option" where
  "readlink fs p = (case node_at fs p of Some (Link t) \<Rightarrow> Some t | _ \<Rightarrow> None)"

definition MAXSYMLINKS :: nat where
  "MAXSYMLINKS = 40"

text \<open>
  \<^verbatim>\<open>posixpath._joinrealpath\<close>, non-strict: \<open>acc\<close> is the resolved part, the list holds the
  components still to walk, \<open>lk\<close> answers \<^verbatim>\<open>lstat\<close>/\<^verbatim>\<open>readlink\<close>.
\<close>

fun joinrealpath :: "nat \<Rightarrow> (path \<Rightarrow> string option) \<Rightarrow> path \<Rightarrow> string list \<Rightarrow> path" where
  "joinrealpath n lk acc [] = acc"
| "joinrealpath n lk acc (c # rest) =
     (if c = [] \<or> c = ''.'' then joinrealpath n lk acc rest
      else if c = ''..'' then joinrealpath n lk (butlast acc) rest
      else (case lk (acc @ [c]) of
              None \<Rightarrow> joinrealpath n lk (acc @ [c]) rest
            | Some target \<Rightarrow>
                (case n of
                   0 \<Rightarrow> joinrealpath 0 (\<lambda>_. None) (acc @ [c]) rest
                 | Suc m \<Rightarrow>
                     joinrealpath m lk (if is_absolute target then [] else acc)
                       (split_on (CHR ''/'') target @ rest))))"

definition realpath :: "filesystem \<Rightarrow> path \<Rightarrow> path" where
  "realpath fs p = joinrealpath MAXSYMLINKS (readlink fs) [] p"

text \<open>\<^verbatim>\<open>Path.resolve()\<close> of an absolute path.\<close>

definition resolve :: "filesystem \<Rightarrow> path \<Rightarrow> path" where
  "resolve fs p = realpath fs p"

text \<open>
  The directory entry a system call on \<open>p\<close> reaches when it does not follow a final link:
  the parent is resolved, the last component is taken as it is.
\<close>

definition entry :: "filesystem \<Rightarrow> path \<Rightarrow> path" where
  "entry fs p = (if p = [] then [] else realpath fs (butlast p) @ [last p])"

definition lstat :: "filesystem \<Rightarrow> path \<Rightarrow> node option" where
  "lstat fs p = node_at fs (entry fs p)"

definition stat :: "filesystem \<Rightarrow> path \<Rightarrow> node option" where
  "stat fs p =
     (case lstat fs p of
        Some (Link t) \<Rightarrow>
          (case node_at fs (realpath fs p) of
             Some (Link t') \<Rightarrow> None
           | r \<Rightarrow> r)
      | r \<Rightarrow> r)"

definition exists :: "filesystem \<Rightarrow> path \<Rightarrow> bool" where
  "exists fs p = (stat fs p \<noteq> None)"

definition is_dir :: "filesystem \<Rightarrow> path \<Rightarrow> bool" where
  "is_dir fs p = (stat fs p = Some Dir)"

definition is_file :: "filesystem \<Rightarrow> path \<Rightarrow> bool" where
  "is_file fs p = (case stat fs p of Some (File c) \<Rightarrow> True | _ \<Rightarrow> False)"

subsection \<open>The session\<close>

datatype written = Line string | Text string

record session =
  root :: path
  cwd :: path
  files :: filesystem
  out :: "written list"
  inp :: "string list"
  invoked :: "(string \<times> string list) list"

text \<open>
  The fields \<open>root\<close> and \<open>cwd\<close> are those of \<^verbatim>\<open>Terminal\<close>. \<open>files\<close> is the file system the
  process sees, \<open>out\<close> what was written to standard output (\<open>Line s\<close> for \<^verbatim>\<open>print(s)\<close>,
  \<open>Text s\<close> for a write without newline), \<open>inp\<close> the lines still to come on standard
  input, and \<open>invoked\<close> a log of the handlers \<^verbatim>\<open>execute\<close> has called.
\<close>

definition print :: "string \<Rightarrow> session \<Rightarrow> session" where
  "print s st = st\<lparr>out := out st @ [Line s]\<rparr>"

definition put :: "string \<Rightarrow> session \<Rightarrow> session" where
  "put s st = st\<lparr>out := out st @ [Text s]\<rparr>"

definition print_err :: "string \<Rightarrow> session \<Rightarrow> session" where
  "print_err msg st = print (''error: '' @ msg) st"

subsection \<open>The path resolver\<close>

text \<open>
  \<^verbatim>\<open>Terminal._resolve_path\<close>. \<^verbatim>\<open>None\<close> and the empty string are both falsy and are both
  the empty string here. \<open>canonical\<close> is the local \<open>p\<close> after the first \<^verbatim>\<open>resolve()\<close>.
\<close>

definition canonical :: "session \<Rightarrow> string \<Rightarrow> path" where
  "canonical st path_str =
     (if \<not> is_absolute path_str
      then resolve (files st) (cwd st @ parts path_str)
      else resolve (files st) (parts path_str))"

definition resolve_path :: "session \<Rightarrow> string \<Rightarrow> path" where
  "resolve_path st path_str =
     (if path_str = [] then cwd st
      else
        let p = canonical st path_str
        in if relative_to p (root st) then p
           else resolve (files st) (root st @ name p))"

subsection \<open>The tokenizer\<close>

text \<open>
  \<^verbatim>\<open>shlex.split(line)\<close>: the lexer states are \<^verbatim>\<open>' '\<close> (\<open>Space\<close>), \<^verbatim>\<open>'a'\<close> (\<open>Word\<close>), an open
  quote character, and the escape character together with the state to return to
  (\<^verbatim>\<open>escapedstate\<close>). \<open>quoted\<close> and \<open>token\<close> are the variables of \<^verbatim>\<open>read_token\<close>, \<open>toks\<close>
  the tokens already returned.
\<close>

datatype lexstate = Space | Word | Quote char | Escape lexstate

definition whitespace :: "char list" where
  "whitespace = [CHR '' '', CHR 0x09, CHR 0x0D, CHR 0x0A]"

definition quotes :: "char list" where
  "quotes = [CHR 0x27, CHR 0x22]"

definition escape :: char where
  "escape = CHR 0x5C"

definition escapedquotes :: "char list" where
  "escapedquotes = [CHR 0x22]"

definition emit :: "bool \<Rightarrow> string \<Rightarrow> string list \<Rightarrow> string list" where
  "emit quoted token toks = (if token \<noteq> [] \<or> quoted then toks @ [token] else toks)"

fun read_token :: "lexstate \<Rightarrow> bool \<Rightarrow> string \<Rightarrow> string list \<Rightarrow> string \<Rightarrow> string + string list" where
  "read_token Space quoted token toks [] = Inr (emit quoted token toks)"
| "read_token Word quoted token toks [] = Inr (emit quoted token toks)"
| "read_token (Quote q) quoted token toks [] = Inl ''No closing quotation''"
| "read_token (Escape es) quoted token toks [] = Inl ''No escaped character''"
| "read_token Space quoted token toks (c # cs) =
     (if c \<in> set whitespace then
        (if token \<noteq> [] \<or> quoted then read_token Space False [] (toks @ [token]) cs
         else read_token Space quoted token toks cs)
      else if c = escape then read_token (Escape Word) quoted token toks cs
      else if c \<in> set quotes then read_token (Quote c) quoted token toks cs
      else read_token Word quoted [c] toks cs)"
| "read_token (Quote q) quoted token toks (c # cs) =
     (if c = q then read_token Word True token toks cs
      else if c = escape \<and> q \<in> set escapedquotes then read_token (Escape (Quote q)) True token toks cs
      else read_token (Quote q) True (token @ [c]) toks cs)"
| "read_token (Escape es) quoted token toks (c # cs) =
     (case es of
        Quote q \<Rightarrow>
          (if c \<noteq> escape \<and> c \<noteq> q then read_token es quoted (token @ [escape, c]) toks cs
           else read_token es quoted (token @ [c]) toks cs)
      | _ \<Rightarrow> read_token es quoted (token @ [c]) toks cs)"
| "read_token Word quoted token toks (c # cs) =
     (if c \<in> set whitespace then
        (if token \<noteq> [] \<or> quoted then read_token Space False [] (toks @ [token]) cs
         else read_token Space quoted token toks cs)
      else if c \<in> set quotes then read_token (Quote c) quoted token toks cs
      else if c = escape then read_token (Escape Word) quoted token toks cs
      else read_token Word quoted (token @ [c]) toks cs)"

definition shlex_split :: "string \<Rightarrow> string + string list" where
  "shlex_split line = read_token Space False [] [] line"

subsection \<open>Exceptions and the file operations of the standard library\<close>

datatype exn =
    FileNotFoundError path
  | FileExistsError path
  | NotADirectoryError path
  | IsADirectoryError path
  | OSError string
  | ValueError string
  | SystemExit

definition quote_path :: "path \<Rightarrow> string" where
  "quote_path p = [CHR 0x27] @ str_path p @ [CHR 0x27]"

fun str_exn :: "exn \<Rightarrow> string" where
  "str_exn (FileNotFoundError p) = ''[Errno 2] No such file or directory: '' @ quote_path p"
| "str_exn (FileExistsError p) = ''[Errno 17] File exists: '' @ quote_path p"
| "str_exn (NotADirectoryError p) = ''[Errno 20] Not a directory: '' @ quote_path p"
| "str_exn (IsADirectoryError p) = ''[Errno 21] Is a directory: '' @ quote_path p"
| "str_exn (OSError m) = m"
| "str_exn (ValueError m) = m"
| "str_exn SystemExit = ''0''"

definition is_file_node :: "node option \<Rightarrow> bool" where
  "is_file_node n = (case n of Some (File c) \<Rightarrow> True | _ \<Rightarrow> False)"

text \<open>
  \<^verbatim>\<open>os.mkdir(p)\<close>: the parent must resolve to a directory and the entry must be free.
\<close>

definition os_mkdir :: "filesystem \<Rightarrow> path \<Rightarrow> exn option \<times> filesystem" where
  "os_mkdir fs p =
     (if p = [] then (Some (FileExistsError p), fs)
      else
        let d = realpath fs (butlast p) in
        (case node_at fs d of
           Some Dir \<Rightarrow>
             (case node_at fs (d @ [last p]) of
                None \<Rightarrow> (None, fs @ [(d @ [last p], Dir)])
              | Some n \<Rightarrow> (Some (FileExistsError p), fs))
         | Some (File c) \<Rightarrow> (Some (NotADirectoryError p), fs)
         | Some (Link t) \<Rightarrow> (Some (OSError ''[Errno 40] Too many levels of symbolic links''), fs)
         | None \<Rightarrow>
             (if list_ex (\<lambda>q. is_file_node (node_at fs q)) (prefixes d)
              then (Some (NotADirectoryError p), fs)
              else (Some (FileNotFoundError p), fs))))"

text \<open>\<^verbatim>\<open>Path.mkdir(parents=False, exist_ok=True)\<close>.\<close>

definition mkdir_exist_ok :: "filesystem \<Rightarrow> path \<Rightarrow> exn option \<times> filesystem" where
  "mkdir_exist_ok fs p =
     (case os_mkdir fs p of
        (None, fs') \<Rightarrow> (None, fs')
      | (Some (FileNotFoundError q), fs') \<Rightarrow> (Some (FileNotFoundError q), fs')
      | (Some e, fs') \<Rightarrow> (if is_dir fs' p then (None, fs') else (Some e, fs')))"

text \<open>
  \<^verbatim>\<open>Path.mkdir(parents=True, exist_ok=True)\<close>: on \<^verbatim>\<open>FileNotFoundError\<close> the parent is
  created first, any other \<^verbatim>\<open>OSError\<close> is swallowed exactly when the path is a directory.
\<close>

function mkdir_parents :: "filesystem \<Rightarrow> path \<Rightarrow> exn option \<times> filesystem" where
  "mkdir_parents fs p =
     (case os_mkdir fs p of
        (None, fs') \<Rightarrow> (None, fs')
      | (Some (FileNotFoundError q), fs') \<Rightarrow>
          (if p = [] then (Some (FileNotFoundError q), fs')
           else (case mkdir_parents fs' (butlast p) of
                   (Some e, fs1) \<Rightarrow> (Some e, fs1)
                 | (None, fs1) \<Rightarrow> mkdir_exist_ok fs1 p))
      | (Some e, fs') \<Rightarrow> (if is_dir fs' p then (None, fs') else (Some e, fs')))"
  by pat_completeness auto
termination
  by (relation "measure (\<lambda>(fs, p). length p)") auto

declare mkdir_parents.simps [simp del]

text \<open>\<^verbatim>\<open>Path.unlink()\<close> removes the entry itself, which must not be a directory.\<close>

definition unlink :: "filesystem \<Rightarrow> path \<Rightarrow> exn option \<times> filesystem" where
  "unlink fs p =
     (case lstat fs p of
        None \<Rightarrow> (Some (FileNotFoundError p), fs)
      | Some Dir \<Rightarrow> (Some (IsADirectoryError p), fs)
      | Some n \<Rightarrow> (None, filter (\<lambda>(q, m). q \<noteq> entry fs p) fs))"

text \<open>
  \<^verbatim>\<open>shutil.rmtree(p)\<close> refuses a symbolic link and removes a directory with everything
  below it; the root directory itself cannot be removed.
\<close>

definition rmtree :: "filesystem \<Rightarrow> path \<Rightarrow> exn option \<times> filesystem" where
  "rmtree fs p =
     (case lstat fs p of
        None \<Rightarrow> (Some (FileNotFoundError p), fs)
      | Some (Link t) \<Rightarrow> (Some (OSError ''Cannot call rmtree on a symbolic link''), fs)
      | Some (File c) \<Rightarrow> (Some (NotADirectoryError p), fs)
      | Some Dir \<Rightarrow>
          (if entry fs p = [] then (Some (OSError ''[Errno 16] Device or resource busy''), [])
           else (None, filter (\<lambda>(q, m). \<not> prefix (entry fs p) q) fs)))"

text \<open>
  \<^verbatim>\<open>open(p, 'r').read()\<close>. A regular file holds its text as the text layer delivers it.
\<close>

definition read_text :: "filesystem \<Rightarrow> path \<Rightarrow> exn + string" where
  "read_text fs p =
     (case stat fs p of
        Some (File c) \<Rightarrow> Inr c
      | Some n \<Rightarrow> Inl (IsADirectoryError p)
      | None \<Rightarrow> Inl (FileNotFoundError p))"

text \<open>
  \<^verbatim>\<open>open(p, 'a')\<close> followed by \<^verbatim>\<open>os.utime\<close>: an existing file is kept (times are not
  modelled), a missing one is created empty where the path or its dangling link points.
\<close>

definition open_append :: "filesystem \<Rightarrow> path \<Rightarrow> exn option \<times> filesystem" where
  "open_append fs p =
     (case stat fs p of
        Some (File c) \<Rightarrow> (None, fs)
      | Some n \<Rightarrow> (Some (IsADirectoryError p), fs)
      | None \<Rightarrow>
          let t = (case lstat fs p of Some (Link l) \<Rightarrow> realpath fs p | _ \<Rightarrow> entry fs p) in
          (case node_at fs t of
             Some n \<Rightarrow> (Some (OSError ''[Errno 40] Too many levels of symbolic links''), fs)
           | None \<Rightarrow>
               (case node_at fs (butlast t) of
                  Some Dir \<Rightarrow> (None, fs @ [(t, File [])])
                | Some n \<Rightarrow> (Some (NotADirectoryError p), fs)
                | None \<Rightarrow> (Some (FileNotFoundError p), fs))))"

text \<open>\<^verbatim>\<open>Path.iterdir()\<close>: the names bound in the directory, in directory order.\<close>

definition iterdir :: "filesystem \<Rightarrow> path \<Rightarrow> string list" where
  "iterdir fs p =
     map last (filter (\<lambda>q. q \<noteq> [] \<and> butlast q = realpath fs p) (remdups (map fst fs)))"

subsection \<open>Strings\<close>

fun join :: "string \<Rightarrow> string list \<Rightarrow> string" where
  "join sep [] = []"
| "join sep [x] = x"
| "join sep (x # y # ys) = x @ sep @ join sep (y # ys)"

definition isspace :: "char \<Rightarrow> bool" where
  "isspace c = (c \<in> set [CHR '' '', CHR 0x09, CHR 0x0A, CHR 0x0B, CHR 0x0C, CHR 0x0D,
                          CHR 0x1C, CHR 0x1D, CHR 0x1E, CHR 0x1F])"

definition strip :: "string \<Rightarrow> string" where
  "strip s = rev (dropWhile isspace (rev (dropWhile isspace s)))"

definition lower_char :: "char \<Rightarrow> char" where
  "lower_char c =
     (if (65::nat) \<le> of_char c \<and> of_char c \<le> (90::nat) then char_of (of_char c + (32::nat)) else c)"

definition lower :: "string \<Rightarrow> string" where
  "lower s = map lower_char s"

definition startswith :: "string \<Rightarrow> string \<Rightarrow> bool" where
  "startswith s pre = prefix pre s"

definition isdigit :: "char \<Rightarrow> bool" where
  "isdigit c = ((48::nat) \<le> of_char c \<and> of_char c \<le> (57::nat))"

text \<open>
  \<^verbatim>\<open>int(s)\<close> for a string: surrounding white space, an optional sign, decimal digits
  with single underscores between them.
\<close>

fun digits_value :: "bool \<Rightarrow> int \<Rightarrow> string \<Rightarrow> int option" where
  "digits_value after_digit acc [] = (if after_digit then Some acc else None)"
| "digits_value after_digit acc (c # cs) =
     (if isdigit c then digits_value True (acc * 10 + int (of_char c - (48::nat))) cs
      else if c = CHR ''_'' \<and> after_digit \<and> cs \<noteq> [] \<and> isdigit (hd cs)
        then digits_value False acc cs
      else None)"

definition py_int :: "string \<Rightarrow> int option" where
  "py_int s =
     (case strip s of
        [] \<Rightarrow> None
      | c # cs \<Rightarrow>
          (if c = CHR ''-'' then map_option uminus (digits_value False 0 cs)
           else if c = CHR ''+'' then digits_value False 0 cs
           else digits_value False 0 (c # cs)))"

text \<open>Iterating over an open text file yields its lines, each with its newline.\<close>

fun readlines :: "string \<Rightarrow> string list" where
  "readlines [] = []"
| "readlines (c # cs) =
     (if c = CHR 0x0A then [c] # readlines cs
      else (case readlines cs of
              [] \<Rightarrow> [[c]]
            | l # ls \<Rightarrow> (c # l) # ls))"

subsection \<open>The host platform\<close>

record platform =
  ps_output :: "written list"
  sysmon_output :: "written list"
  history_output :: "written list"
  disk_usage :: "filesystem \<Rightarrow> path \<Rightarrow> exn + string"
  copy2 :: "filesystem \<Rightarrow> path \<Rightarrow> path \<Rightarrow> exn option \<times> filesystem"
  copytree :: "filesystem \<Rightarrow> path \<Rightarrow> path \<Rightarrow> exn option \<times> filesystem"
  move :: "filesystem \<Rightarrow> path \<Rightarrow> path \<Rightarrow> exn option \<times> filesystem"

text \<open>
  A platform says what the host tools print and what the \<^verbatim>\<open>shutil\<close> calls do to the
  file system. \<open>quiet_platform\<close> is one on which they print nothing and change nothing.
\<close>

definition quiet_platform :: platform where
  "quiet_platform =
     \<lparr>ps_output = [], sysmon_output = [], history_output = [],
      disk_usage = (\<lambda>t p. Inr []),
      copy2 = (\<lambda>t a b. (None, t)),
      copytree = (\<lambda>t a b. (None, t)),
      move = (\<lambda>t a b. (None, t))\<rparr>"

subsection \<open>Command handlers\<close>

text \<open>
  A handler takes the session and the argument list and gives back the exception it
  raised, if any, with the session as it was left.
\<close>

type_synonym handler = "session \<Rightarrow> string list \<Rightarrow> exn option \<times> session"

text \<open>\<^verbatim>\<open>Terminal._confirm\<close>: \<^verbatim>\<open>input\<close> writes the prompt; end of input counts as no.\<close>

definition confirm :: "string \<Rightarrow> session \<Rightarrow> bool \<times> session" where
  "confirm prompt st =
     (case inp st of
        [] \<Rightarrow> (False, put (prompt @ '' [y/N]: '') st)
      | l # ls \<Rightarrow> (lower (strip l) = ''y'', (put (prompt @ '' [y/N]: '') st)\<lparr>inp := ls\<rparr>))"

definition help_text :: string where
  "help_text = join [CHR 0x0A]
     [''Built-in commands:'',
      ''  help                 Show this help'',
      ''  pwd                  Print working directory'',
      ''  ls [path]            List files (add -a to include hidden)'',
      ''  cd [path]            Change directory (sandboxed to project root)'',
      ''  mkdir <dir>...       Create directories (supports multiple)'',
      ''  rm [-r] <path>...    Remove files; -r for directories'',
      ''  touch <file>...      Create empty file(s) or update mtime'',
      ''  cat <file>...        Print file(s)'',
      ''  echo [text]          Print text'',
      ''  cp <src> <dst>       Copy file/dir (dst may be dir)'',
      ''  mv <src> <dst>       Move/rename'',
      ''  head [-n N] <file>   First N lines (default 10)'',
      ''  tail [-n N] <file>   Last N lines (default 10)'',
      ''  ps                   Show running processes (system)'',
      ''  sysmon               CPU & memory snapshot'',
      ''  df                   Disk usage for project root'',
      ''  history              Show recent command history (if available)'',
      ''  exit | quit          Leave terminal'']"

definition cmd_help :: handler where
  "cmd_help st args = (None, print help_text st)"

definition cmd_pwd :: handler where
  "cmd_pwd st args = (None, print (str_path (cwd st)) st)"

fun ls_args :: "bool \<Rightarrow> string \<Rightarrow> string list \<Rightarrow> bool \<times> string" where
  "ls_args show_all target [] = (show_all, target)"
| "ls_args show_all target (a # as) =
     (if a = ''-a'' then ls_args True target as else ls_args show_all a as)"

definition ls_key :: "filesystem \<Rightarrow> path \<Rightarrow> string \<Rightarrow> bool \<times> string" where
  "ls_key t p n = (\<not> is_dir t (p @ [n]), lower n)"

definition ls_item :: "bool \<Rightarrow> path \<Rightarrow> string \<Rightarrow> session \<Rightarrow> session" where
  "ls_item show_all p n st =
     (if \<not> show_all \<and> startswith n ''.'' then st
      else print (n @ (if is_dir (files st) (p @ [n]) then ''/'' else [])) st)"

definition cmd_ls :: handler where
  "cmd_ls st args =
     (case ls_args False [] args of
        (show_all, target) \<Rightarrow>
          let p = resolve_path st target in
          if \<not> exists (files st) p then (None, print_err ''path not found'' st)
          else if is_file (files st) p then (None, print (concat (name p)) st)
          else (None, fold (ls_item show_all p)
                        (sort_key (ls_key (files st) p) (iterdir (files st) p)) st))"

definition cd_target :: "session \<Rightarrow> string list \<Rightarrow> path" where
  "cd_target st args = (case args of [] \<Rightarrow> root st | a # as \<Rightarrow> resolve_path st a)"

definition cmd_cd :: handler where
  "cmd_cd st args =
     (let p = cd_target st args in
      if \<not> exists (files st) p \<or> \<not> is_dir (files st) p
        then (None, print_err ''no such directory'' st)
      else if \<not> relative_to p (root st)
        then (None, print_err ''access outside project root is blocked'' st)
      else (None, st\<lparr>cwd := p\<rparr>))"

fun mkdir_loop :: "session \<Rightarrow> string list \<Rightarrow> exn option \<times> session" where
  "mkdir_loop st [] = (None, st)"
| "mkdir_loop st (d # ds) =
     (case mkdir_parents (files st) (resolve_path st d) of
        (Some e, t) \<Rightarrow> (Some e, st\<lparr>files := t\<rparr>)
      | (None, t) \<Rightarrow> mkdir_loop (st\<lparr>files := t\<rparr>) ds)"

definition cmd_mkdir :: handler where
  "cmd_mkdir st args =
     (if args = [] then (None, print_err ''usage: mkdir <dir>...'' st)
      else mkdir_loop st args)"

fun rm_args :: "bool \<Rightarrow> string list \<Rightarrow> string list \<Rightarrow> bool \<times> string list" where
  "rm_args recursive paths [] = (recursive, paths)"
| "rm_args recursive paths (a # as) =
     (if a = ''-r'' then rm_args True paths as else rm_args recursive (paths @ [a]) as)"

fun rm_loop :: "bool \<Rightarrow> session \<Rightarrow> string list \<Rightarrow> exn option \<times> session" where
  "rm_loop recursive st [] = (None, st)"
| "rm_loop recursive st (pstr # rest) =
     (let p = resolve_path st pstr in
      if \<not> exists (files st) p
        then rm_loop recursive (print_err (''not found: '' @ pstr) st) rest
      else if is_dir (files st) p then
        (if \<not> recursive
           then rm_loop recursive (print_err (''is a directory (use -r): '' @ pstr) st) rest
         else
           (case confirm (''rm -r '' @ str_path p) st of
              (False, st1) \<Rightarrow> rm_loop recursive (print ''aborted'' st1) rest
            | (True, st1) \<Rightarrow>
                (case rmtree (files st1) p of
                   (Some e, t) \<Rightarrow> (Some e, st1\<lparr>files := t\<rparr>)
                 | (None, t) \<Rightarrow> rm_loop recursive (st1\<lparr>files := t\<rparr>) rest)))
      else
        (case unlink (files st) p of
           (Some e, t) \<Rightarrow> (Some e, st\<lparr>files := t\<rparr>)
         | (None, t) \<Rightarrow> rm_loop recursive (st\<lparr>files := t\<rparr>) rest))"

definition cmd_rm :: handler where
  "cmd_rm st args =
     (if args = [] then (None, print_err ''usage: rm [-r] <path>...'' st)
      else (case rm_args False [] args of
              (recursive, paths) \<Rightarrow> rm_loop recursive st paths))"

fun touch_loop :: "session \<Rightarrow> string list \<Rightarrow> exn option \<times> session" where
  "touch_loop st [] = (None, st)"
| "touch_loop st (f # fs) =
     (let p = resolve_path st f in
      case mkdir_parents (files st) (butlast p) of
        (Some e, t) \<Rightarrow> (Some e, st\<lparr>files := t\<rparr>)
      | (None, t) \<Rightarrow>
          (case open_append t p of
             (Some e, t') \<Rightarrow> (Some e, st\<lparr>files := t'\<rparr>)
           | (None, t') \<Rightarrow> touch_loop (st\<lparr>files := t'\<rparr>) fs))"

definition cmd_touch :: handler where
  "cmd_touch st args =
     (if args = [] then (None, print_err ''usage: touch <file>...'' st)
      else touch_loop st args)"

fun cat_loop :: "session \<Rightarrow> string list \<Rightarrow> exn option \<times> session" where
  "cat_loop st [] = (None, st)"
| "cat_loop st (f # fs) =
     (let p = resolve_path st f in
      if \<not> exists (files st) p \<or> \<not> is_file (files st) p
        then cat_loop (print_err (''no such file: '' @ f) st) fs
      else
        (case read_text (files st) p of
           Inl e \<Rightarrow> (Some e, st)
         | Inr text \<Rightarrow> cat_loop (put text st) fs))"

definition cmd_cat :: handler where
  "cmd_cat st args =
     (if args = [] then (None, print_err ''usage: cat <file>...'' st)
      else cat_loop st args)"

definition cmd_echo :: handler where
  "cmd_echo st args = (None, print (join '' '' args) st)"

definition cmd_cp :: "platform \<Rightarrow> handler" where
  "cmd_cp env st args =
     (case args of
        a # b # others \<Rightarrow>
          (let src = resolve_path st a; dst = resolve_path st b in
           if \<not> exists (files st) src then (None, print_err ''source not found'' st)
           else if is_dir (files st) src then
             (let dst' = (if exists (files st) dst \<and> is_dir (files st) dst
                          then dst @ name src else dst)
              in case copytree env (files st) src dst' of
                   (r, t) \<Rightarrow> (r, st\<lparr>files := t\<rparr>))
           else
             (let dst' = (if is_dir (files st) dst then dst @ name src else dst)
              in case mkdir_parents (files st) (butlast dst') of
                   (Some e, t) \<Rightarrow> (Some e, st\<lparr>files := t\<rparr>)
                 | (None, t) \<Rightarrow>
                     (case copy2 env t src dst' of
                        (r, t') \<Rightarrow> (r, st\<lparr>files := t'\<rparr>))))
      | _ \<Rightarrow> (None, print_err ''usage: cp <src> <dst>'' st))"

definition cmd_mv :: "platform \<Rightarrow> handler" where
  "cmd_mv env st args =
     (case args of
        a # b # others \<Rightarrow>
          (let src = resolve_path st a; dst = resolve_path st b in
           if \<not> exists (files st) src then (None, print_err ''source not found'' st)
           else
             (case mkdir_parents (files st) (butlast dst) of
                (Some e, t) \<Rightarrow> (Some e, st\<lparr>files := t\<rparr>)
              | (None, t) \<Rightarrow>
                  (case move env t src dst of
                     (r, t') \<Rightarrow> (r, st\<lparr>files := t'\<rparr>))))
      | _ \<Rightarrow> (None, print_err ''usage: mv <src> <dst>'' st))"

text \<open>
  \<^verbatim>\<open>Terminal._read_n_lines\<close>: nothing for \<open>n \<le> 0\<close>; the first \<open>n\<close> lines, or with \<open>tail\<close>
  the last \<open>n\<close> (a \<^verbatim>\<open>deque\<close> bounded by \<open>n\<close>), each written without an added newline.
\<close>

definition read_n_lines :: "session \<Rightarrow> path \<Rightarrow> int \<Rightarrow> bool \<Rightarrow> exn option \<times> session" where
  "read_n_lines st p n tail =
     (if n \<le> 0 then (None, st)
      else
        (case read_text (files st) p of
           Inl e \<Rightarrow> (Some e, st)
         | Inr text \<Rightarrow>
             (let ls = readlines text in
              if tail then (None, fold put (drop (length ls - nat n) ls) st)
              else (None, fold put (take (nat n) ls) st))))"

text \<open>
  The argument scan of \<^verbatim>\<open>cmd_head\<close> and \<^verbatim>\<open>cmd_tail\<close>: \<^verbatim>\<open>-n\<close> consumes the next argument
  as the count; a missing or malformed count ends the command with \<^verbatim>\<open>invalid N\<close>.
\<close>

fun n_args :: "int \<Rightarrow> string list \<Rightarrow> string list \<Rightarrow> (int \<times> string list) option" where
  "n_args n fnames [] = Some (n, fnames)"
| "n_args n fnames [a] = (if a = ''-n'' then None else Some (n, fnames @ [a]))"
| "n_args n fnames (a # b # others) =
     (if a = ''-n'' then
        (case py_int b of
           None \<Rightarrow> None
         | Some k \<Rightarrow> n_args k fnames others)
      else n_args n (fnames @ [a]) (b # others))"

fun lines_loop :: "bool \<Rightarrow> int \<Rightarrow> session \<Rightarrow> string list \<Rightarrow> exn option \<times> session" where
  "lines_loop tail n st [] = (None, st)"
| "lines_loop tail n st (f # fs) =
     (let p = resolve_path st f in
      if \<not> exists (files st) p \<or> \<not> is_file (files st) p
        then lines_loop tail n (print_err (''no such file: '' @ f) st) fs
      else
        (case read_n_lines st p n tail of
           (Some e, st') \<Rightarrow> (Some e, st')
         | (None, st') \<Rightarrow> lines_loop tail n st' fs))"

definition cmd_head :: handler where
  "cmd_head st args =
     (if args = [] then (None, print_err ''usage: head [-n N] <file>'' st)
      else (case n_args 10 [] args of
              None \<Rightarrow> (None, print_err ''invalid N'' st)
            | Some (n, fnames) \<Rightarrow> lines_loop False n st fnames))"

definition cmd_tail :: handler where
  "cmd_tail st args =
     (if args = [] then (None, print_err ''usage: tail [-n N] <file>'' st)
      else (case n_args 10 [] args of
              None \<Rightarrow> (None, print_err ''invalid N'' st)
            | Some (n, fnames) \<Rightarrow> lines_loop True n st fnames))"

definition cmd_ps :: "platform \<Rightarrow> handler" where
  "cmd_ps env st args = (None, st\<lparr>out := out st @ ps_output env\<rparr>)"

definition cmd_sysmon :: "platform \<Rightarrow> handler" where
  "cmd_sysmon env st args = (None, st\<lparr>out := out st @ sysmon_output env\<rparr>)"

definition cmd_df :: "platform \<Rightarrow> handler" where
  "cmd_df env st args =
     (case disk_usage env (files st) (root st) of
        Inl e \<Rightarrow> (Some e, st)
      | Inr report \<Rightarrow> (None, print report st))"

definition cmd_history :: "platform \<Rightarrow> handler" where
  "cmd_history env st args = (None, st\<lparr>out := out st @ history_output env\<rparr>)"

definition cmd_exit :: handler where
  "cmd_exit st args = (Some SystemExit, st)"

subsection \<open>The dispatcher\<close>

text \<open>The dictionary \<^verbatim>\<open>self.commands\<close>.\<close>

definition commands :: "platform \<Rightarrow> (string \<times> handler) list" where
  "commands env =
     [(''help'', cmd_help),
      (''pwd'', cmd_pwd),
      (''ls'', cmd_ls),
      (''cd'', cmd_cd),
      (''mkdir'', cmd_mkdir),
      (''rm'', cmd_rm),
      (''touch'', cmd_touch),
      (''cat'', cmd_cat),
      (''echo'', cmd_echo),
      (''cp'', cmd_cp env),
      (''mv'', cmd_mv env),
      (''head'', cmd_head),
      (''tail'', cmd_tail),
      (''ps'', cmd_ps env),
      (''sysmon'', cmd_sysmon env),
      (''df'', cmd_df env),
      (''history'', cmd_history env),
      (''exit'', cmd_exit),
      (''quit'', cmd_exit)]"

definition unknown_command :: "string \<Rightarrow> string" where
  "unknown_command cmd = ''unknown command: '' @ cmd @ ''. Try '' @ [CHR 0x27] @ ''help'' @ [CHR 0x27] @ ''.''"

text \<open>
  \<^verbatim>\<open>Terminal.execute\<close>. The first component of the result is the exception that leaves
  \<^verbatim>\<open>execute\<close>, if any: \<^verbatim>\<open>SystemExit\<close> is passed on, every other exception of a handler is
  printed, and the unpacking \<^verbatim>\<open>cmd, *args = parts\<close> stands outside both \<^verbatim>\<open>try\<close> blocks.
\<close>

definition execute :: "platform \<Rightarrow> session \<Rightarrow> string \<Rightarrow> exn option \<times> session" where
  "execute env st line =
     (case shlex_split line of
        Inl e \<Rightarrow> (None, print_err (''parse error: '' @ e) st)
      | Inr toks \<Rightarrow>
          (case toks of
             [] \<Rightarrow> (Some (ValueError ''not enough values to unpack (expected at least 1, got 0)''), st)
           | cmd # args \<Rightarrow>
               (case map_of (commands env) cmd of
                  None \<Rightarrow> (None, print_err (unknown_command cmd) st)
                | Some handler \<Rightarrow>
                    (case handler (st\<lparr>invoked := invoked st @ [(cmd, args)]\<rparr>) args of
                       (None, st') \<Rightarrow> (None, st')
                     | (Some SystemExit, st') \<Rightarrow> (Some SystemExit, st')
                     | (Some e, st') \<Rightarrow> (None, print_err (str_exn e) st')))))"

text \<open>
  The body of the loop of \<^verbatim>\<open>Terminal.run\<close> once a line has been read: a line that is
  empty after \<^verbatim>\<open>strip()\<close> is skipped.
\<close>

definition run_line :: "platform \<Rightarrow> session \<Rightarrow> string \<Rightarrow> exn option \<times> session" where
  "run_line env st line = (if strip line = [] then (None, st) else execute env st line)"

text \<open>
  \<^verbatim>\<open>Terminal.__init__\<close>: the root is resolved once, \<open>cwd\<close> starts there, and the root
  directory is created if it is missing.
\<close>

definition Terminal :: "filesystem \<Rightarrow> string list \<Rightarrow> path \<Rightarrow> exn option \<times> session" where
  "Terminal t stdin r =
     (case mkdir_parents t (resolve t r) of
        (x, t') \<Rightarrow>
          (x, \<lparr>root = resolve t r, cwd = resolve t r, files = t', out = [],
               inp = stdin, invoked = []\<rparr>))"

text \<open>
  The sessions a caller can reach from a fresh terminal by calling \<^verbatim>\<open>execute\<close>, with
  the file system free to be changed from outside between two calls.
\<close>

inductive reachable :: "platform \<Rightarrow> session \<Rightarrow> bool" for env :: platform where
  start: "Terminal t stdin r = (None, st) \<Longrightarrow> reachable env st"
| step: "reachable env st \<Longrightarrow> execute env st line = (x, st') \<Longrightarrow> reachable env st'"
| outside: "reachable env st \<Longrightarrow> reachable env (st\<lparr>files := t\<rparr>)"

subsection \<open>Example sessions\<close>

text \<open>A fresh terminal on the empty sandbox \<^verbatim>\<open>/sandbox\<close>.\<close>

definition sandbox :: session where
  "sandbox =
     \<lparr>root = [''sandbox''], cwd = [''sandbox''], files = [([''sandbox''], Dir)],
      out = [], inp = [], invoked = []\<rparr>"

text \<open>
  The sandbox \<^verbatim>\<open>/sandbox\<close> holding a symbolic link \<^verbatim>\<open>etc\<close> to the directory \<^verbatim>\<open>/etc\<close>,
  which lies outside and holds the file \<^verbatim>\<open>passwd\<close>.
\<close>

definition linked_sandbox :: session where
  "linked_sandbox =
     \<lparr>root = [''sandbox''], cwd = [''sandbox''],
      files = [([''sandbox''], Dir), ([''sandbox'', ''etc''], Link ''/etc''), ([''etc''], Dir),
               ([''etc'', ''passwd''], File ''root:x:0:0'')],
      out = [], inp = [], invoked = []\<rparr>"


text \<open>The sandbox with a directory \<^verbatim>\<open>demo\<close> and a file \<^verbatim>\<open>notes\<close> of two lines.\<close>

definition demo_sandbox :: session where
  "demo_sandbox =
     \<lparr>root = [''sandbox''], cwd = [''sandbox''],
      files = [([''sandbox''], Dir), ([''sandbox'', ''demo''], Dir),
               ([''sandbox'', ''notes''], File (''one'' @ [CHR 0x0A] @ ''two'' @ [CHR 0x0A]))],
      out = [], inp = [], invoked = []\<rparr>"

subsection \<open>Predicates used in the statements\<close>

text \<open>A path component that is a name: not empty, not \<^verbatim>\<open>.\<close> and not \<^verbatim>\<open>..\<close>.\<close>

definition proper :: "string \<Rightarrow> bool" where
  "proper c = (c \<noteq> [] \<and> c \<noteq> ''.'' \<and> c \<noteq> ''..'')"


text \<open>
  A directory in the strict sense: the path and all its ancestors are directories of
  the file system, so no symbolic link is passed on the way.
\<close>

definition real_dir :: "filesystem \<Rightarrow> path \<Rightarrow> bool" where
  "real_dir t p = list_all (\<lambda>q. node_at t q = Some Dir) (prefixes p)"


text \<open>
  The sandbox with the directories \<^verbatim>\<open>a\<close> and \<^verbatim>\<open>a/b\<close> and a symbolic link \<^verbatim>\<open>sub -> a/b\<close>.
\<close>

definition nested_sandbox :: session where
  "nested_sandbox =
     \<lparr>root = [''sandbox''], cwd = [''sandbox''],
      files = [([''sandbox''], Dir), ([''sandbox'', ''a''], Dir),
               ([''sandbox'', ''a'', ''b''], Dir), ([''sandbox'', ''sub''], Link ''a/b'')],
      out = [], inp = [], invoked = []\<rparr>"

subsection \<open>What one argument contributes\<close>

text \<open>
  The outcome the per-item commands owe for a single path argument, taken on its own:
  \<^verbatim>\<open>cat\<close> writes the text of a regular file or reports the argument; \<^verbatim>\<open>head\<close> and
  \<^verbatim>\<open>tail\<close> write the selected lines or report the argument.
\<close>

definition cat_item :: "session \<Rightarrow> string \<Rightarrow> written" where
  "cat_item st f =
     (case read_text (files st) (resolve_path st f) of
        Inr text \<Rightarrow> Text text
      | Inl e \<Rightarrow> Line (''error: no such file: '' @ f))"

definition lines_item :: "bool \<Rightarrow> int \<Rightarrow> session \<Rightarrow> string \<Rightarrow> written list" where
  "lines_item tail n st f =
     (case read_text (files st) (resolve_path st f) of
        Inr text \<Rightarrow>
          (if n \<le> 0 then []
           else if tail then map Text (drop (length (readlines text) - nat n) (readlines text))
           else map Text (take (nat n) (readlines text)))
      | Inl e \<Rightarrow> [Line (''error: no such file: '' @ f)])"

section \<open>Dispatch\<close>

lemmas lexer_defs = shlex_split_def whitespace_def quotes_def escape_def escapedquotes_def emit_def

text \<open>
  C6. A line whose first token is not one of the nineteen registered names (compared
  exactly, so \<^verbatim>\<open>LS\<close> is not \<^verbatim>\<open>ls\<close>) makes \<^verbatim>\<open>execute\<close> return normally after printing the
  single line \<^verbatim>\<open>error: unknown command: <token>. Try 'help'.\<close>; nothing else of the session
  changes, in particular not \<open>cwd\<close>, and no handler is called.
\<close>

theorem unknown_command_one_error_line:
  assumes "shlex_split line = Inr (cmd # args)"
    and "cmd \<notin> {''help'', ''pwd'', ''ls'', ''cd'', ''mkdir'', ''rm'', ''touch'', ''cat'', ''echo'',
                 ''cp'', ''mv'', ''head'', ''tail'', ''ps'', ''sysmon'', ''df'', ''history'',
                 ''exit'', ''quit''}"
  shows "execute env st line =
           (None, st\<lparr>out := out st @
              [Line (''error: unknown command: '' @ cmd @ ''. Try '' @ [CHR 0x27] @ ''help''
                       @ [CHR 0x27] @ ''.'')]\<rparr>)"
proof -
  have "map_of (commands env) cmd = None"
    using assms(2) by (simp add: commands_def)
  then show ?thesis
    using assms(1) by (simp add: execute_def print_err_def print_def unknown_command_def)
qed

theorem unknown_command_one_error_line_witness:
  "shlex_split ''frobnicate'' = Inr [''frobnicate'']
   \<and> execute quiet_platform sandbox ''frobnicate'' =
       (None, sandbox\<lparr>out := out sandbox @
          [Line (''error: unknown command: frobnicate. Try '' @ [CHR 0x27] @ ''help''
                   @ [CHR 0x27] @ ''.'')]\<rparr>)
   \<and> cwd (snd (execute quiet_platform sandbox ''LS'')) = cwd sandbox"
proof -
  have a: "shlex_split ''frobnicate'' = Inr [''frobnicate'']"
    by (simp add: lexer_defs)
  have b: "shlex_split ''LS'' = Inr [''LS'']"
    by (simp add: lexer_defs)
  show ?thesis
    using a unknown_command_one_error_line [OF a, of quiet_platform sandbox]
      unknown_command_one_error_line [OF b, of quiet_platform sandbox]
    by simp
qed

text \<open>
  C5. When \<^verbatim>\<open>shlex.split\<close> raises, \<^verbatim>\<open>execute\<close> prints the one line
  \<^verbatim>\<open>error: parse error: <message>\<close> and returns; \<open>cwd\<close> and everything else are as before and
  no handler is called. The unterminated quote of \<^verbatim>\<open>echo 'unterminated\<close> is such a line.
  A well-quoted line is split with its quotes honoured: \<^verbatim>\<open>echo "a b" c\<close> calls the \<^verbatim>\<open>echo\<close>
  handler with the two arguments \<^verbatim>\<open>a b\<close> and \<^verbatim>\<open>c\<close>, which prints exactly \<^verbatim>\<open>a b c\<close>.
\<close>

theorem parse_error_reported_and_quotes_honoured:
  \<open>(shlex_split line = Inl e \<longrightarrow>
      execute env st line = (None, st\<lparr>out := out st @ [Line (''error: parse error: '' @ e)]\<rparr>))
   \<and> shlex_split (''echo '' @ [CHR 0x27] @ ''unterminated'') = Inl ''No closing quotation''
   \<and> execute env st ''echo "a b" c'' =
       (None, st\<lparr>out := out st @ [Line ''a b c''],
                  invoked := invoked st @ [(''echo'', [''a b'', ''c''])]\<rparr>)\<close>
proof -
  have a: \<open>shlex_split ''echo "a b" c'' = Inr [''echo'', ''a b'', ''c'']\<close>
    by (simp add: lexer_defs)
  have b: "map_of (commands env) ''echo'' = Some cmd_echo"
    by (simp add: commands_def)
  have c: \<open>execute env st ''echo "a b" c'' =
       (None, st\<lparr>out := out st @ [Line ''a b c''],
                  invoked := invoked st @ [(''echo'', [''a b'', ''c''])]\<rparr>)\<close>
    unfolding execute_def a using b by (simp add: cmd_echo_def print_def)
  have d: "shlex_split (''echo '' @ [CHR 0x27] @ ''unterminated'') = Inl ''No closing quotation''"
    by (simp add: lexer_defs)
  have e: "shlex_split line = Inl e \<longrightarrow>
      execute env st line = (None, st\<lparr>out := out st @ [Line (''error: parse error: '' @ e)]\<rparr>)"
    by (simp add: execute_def print_err_def print_def)
  from c d e show ?thesis by blast
qed

theorem parse_error_reported_and_quotes_honoured_witness:
  "shlex_split (''echo '' @ [CHR 0x27] @ ''unterminated'') = Inl ''No closing quotation''
   \<and> execute quiet_platform sandbox (''echo '' @ [CHR 0x27] @ ''unterminated'') =
       (None, sandbox\<lparr>out := [Line ''error: parse error: No closing quotation'']\<rparr>)"
proof -
  have "out sandbox = []" by (simp add: sandbox_def)
  then show ?thesis
    using parse_error_reported_and_quotes_honoured
      [of "''echo '' @ [CHR 0x27] @ ''unterminated''" "''No closing quotation''"
          quiet_platform sandbox]
    by simp
qed

lemma read_token_no_tokens:
  "read_token s q tok toks cs = Inr [] \<Longrightarrow>
     toks = [] \<and> tok = [] \<and> \<not> q \<and> (s = Space \<or> s = Word) \<and> set cs \<subseteq> set whitespace"
proof (induction s q tok toks cs rule: read_token.induct)
  case (1 quoted token toks)
  then show ?case by (simp add: emit_def split: if_splits)
next
  case (2 quoted token toks)
  then show ?case by (simp add: emit_def split: if_splits)
next
  case (3 q quoted token toks)
  then show ?case by simp
next
  case (4 es quoted token toks)
  then show ?case by simp
next
  case (5 quoted token toks c cs)
  show ?case
  proof (cases "c \<in> set whitespace")
    case ws: True
    show ?thesis
    proof (cases "token \<noteq> [] \<or> quoted")
      case True
      with ws "5.prems" have "read_token Space False [] (toks @ [token]) cs = Inr []"
        by simp
      from "5.IH"(1) [OF ws True this] show ?thesis by simp
    next
      case False
      with ws "5.prems" have "read_token Space quoted token toks cs = Inr []"
        by simp
      from "5.IH"(2) [OF ws False this] ws show ?thesis by simp
    qed
  next
    case nws: False
    show ?thesis
    proof (cases "c = escape")
      case True
      with nws "5.prems" have "read_token (Escape Word) quoted token toks cs = Inr []"
        by simp
      from "5.IH"(3) [OF nws True this] show ?thesis by simp
    next
      case ne: False
      show ?thesis
      proof (cases "c \<in> set quotes")
        case True
        with nws ne "5.prems" have "read_token (Quote c) quoted token toks cs = Inr []"
          by simp
        from "5.IH"(4) [OF nws ne True this] show ?thesis by simp
      next
        case False
        with nws ne "5.prems" have "read_token Word quoted [c] toks cs = Inr []"
          by simp
        from "5.IH"(5) [OF nws ne False this] show ?thesis by simp
      qed
    qed
  qed
next
  case (6 q quoted token toks c cs)
  show ?case
  proof (cases "c = q")
    case True
    with "6.prems" have "read_token Word True token toks cs = Inr []" by simp
    from "6.IH"(1) [OF True this] show ?thesis by simp
  next
    case nq: False
    show ?thesis
    proof (cases "c = escape \<and> q \<in> set escapedquotes")
      case True
      with nq "6.prems" have "read_token (Escape (Quote q)) True token toks cs = Inr []"
        by simp
      from "6.IH"(2) [OF nq True this] show ?thesis by simp
    next
      case False
      with nq "6.prems" have "read_token (Quote q) True (token @ [c]) toks cs = Inr []"
        by auto
      from "6.IH"(3) [OF nq False this] show ?thesis by simp
    qed
  qed
next
  case (7 es quoted token toks c cs)
  show ?case
  proof (cases es)
    case Space
    with "7.prems" have "read_token es quoted (token @ [c]) toks cs = Inr []" by simp
    from "7.IH"(1) [OF Space this] show ?thesis by simp
  next
    case Word
    with "7.prems" have "read_token es quoted (token @ [c]) toks cs = Inr []" by simp
    from "7.IH"(2) [OF Word this] show ?thesis by simp
  next
    case (Quote x)
    show ?thesis
    proof (cases "c \<noteq> escape \<and> c \<noteq> x")
      case True
      with Quote "7.prems" have "read_token es quoted (token @ [escape, c]) toks cs = Inr []"
        by simp
      from "7.IH"(3) [OF Quote True this] show ?thesis by simp
    next
      case False
      with Quote "7.prems" have "read_token es quoted (token @ [c]) toks cs = Inr []"
        by auto
      from "7.IH"(4) [OF Quote False this] show ?thesis by simp
    qed
  next
    case (Escape x)
    with "7.prems" have "read_token es quoted (token @ [c]) toks cs = Inr []" by simp
    from "7.IH"(5) [OF Escape this] show ?thesis by simp
  qed
next
  case (8 quoted token toks c cs)
  show ?case
  proof (cases "c \<in> set whitespace")
    case ws: True
    show ?thesis
    proof (cases "token \<noteq> [] \<or> quoted")
      case True
      with ws "8.prems" have "read_token Space False [] (toks @ [token]) cs = Inr []"
        by simp
      from "8.IH"(1) [OF ws True this] show ?thesis by simp
    next
      case False
      with ws "8.prems" have "read_token Space quoted token toks cs = Inr []"
        by simp
      from "8.IH"(2) [OF ws False this] ws show ?thesis by simp
    qed
  next
    case nws: False
    show ?thesis
    proof (cases "c \<in> set quotes")
      case True
      with nws "8.prems" have "read_token (Quote c) quoted token toks cs = Inr []"
        by simp
      from "8.IH"(3) [OF nws True this] show ?thesis by simp
    next
      case ne: False
      show ?thesis
      proof (cases "c = escape")
        case True
        with nws ne "8.prems" have "read_token (Escape Word) quoted token toks cs = Inr []"
          by simp
        from "8.IH"(4) [OF nws ne True this] show ?thesis by simp
      next
        case False
        with nws ne "8.prems" have "read_token Word quoted (token @ [c]) toks cs = Inr []"
          by simp
        from "8.IH"(5) [OF nws ne False this] show ?thesis by simp
      qed
    qed
  qed
qed

lemma strip_blank: "set cs \<subseteq> set whitespace \<Longrightarrow> strip cs = []"
proof -
  assume a: "set cs \<subseteq> set whitespace"
  have "\<forall>c\<in>set cs. isspace c"
    using a by (auto simp: whitespace_def isspace_def)
  then have d: "dropWhile isspace cs = []" by (induction cs) auto
  show ?thesis unfolding strip_def d by simp
qed

text \<open>
  C4, as the code has it. A line that tokenizes to the empty list consists of white
  space only. On such a line \<^verbatim>\<open>execute\<close> prints nothing, calls no handler and leaves the
  whole session, \<open>cwd\<close> included, as it was; but it does not return: the unpacking
  \<^verbatim>\<open>cmd, *args = parts\<close> raises \<^verbatim>\<open>ValueError\<close>, which leaves \<^verbatim>\<open>execute\<close>. The loop of \<^verbatim>\<open>run\<close>
  never passes such a line on: it skips it with no effect at all.
\<close>

theorem empty_token_list_raises:
  assumes "shlex_split line = Inr []"
  shows "execute env st line =
           (Some (ValueError ''not enough values to unpack (expected at least 1, got 0)''), st)
         \<and> strip line = []
         \<and> run_line env st line = (None, st)"
proof -
  have a: "execute env st line =
           (Some (ValueError ''not enough values to unpack (expected at least 1, got 0)''), st)"
    using assms by (simp add: execute_def)
  have "set line \<subseteq> set whitespace"
    using assms read_token_no_tokens [of Space False "[]" "[]" line]
    by (simp add: shlex_split_def)
  then have b: "strip line = []" by (rule strip_blank)
  then have "run_line env st line = (None, st)" by (simp add: run_line_def)
  with a b show ?thesis by simp
qed

theorem empty_token_list_raises_witness:
  "shlex_split '' '' = Inr []
   \<and> execute quiet_platform sandbox '' '' =
       (Some (ValueError ''not enough values to unpack (expected at least 1, got 0)''), sandbox)
   \<and> run_line quiet_platform sandbox '' '' = (None, sandbox)"
proof -
  have a: "shlex_split '' '' = Inr []" by (simp add: lexer_defs)
  show ?thesis
    using a empty_token_list_raises [OF a, of quiet_platform sandbox]
    by simp
qed

text \<open>
  C4 as stated fails on the empty line: tokenization succeeds with no token, and an
  exception leaves \<^verbatim>\<open>execute\<close>.
\<close>

theorem empty_line_fault_counterexample:
  "shlex_split [] = Inr [] \<and> fst (execute quiet_platform sandbox []) \<noteq> None"
  by (simp add: lexer_defs execute_def)

section \<open>Listing\<close>




section \<open>The working directory\<close>

lemma print_fields [simp]:
  "cwd (print s st) = cwd st" "root (print s st) = root st" "files (print s st) = files st"
  "inp (print s st) = inp st" "invoked (print s st) = invoked st"
  "out (print s st) = out st @ [Line s]"
  by (simp_all add: print_def)

lemma put_fields [simp]:
  "cwd (put s st) = cwd st" "root (put s st) = root st" "files (put s st) = files st"
  "inp (put s st) = inp st" "invoked (put s st) = invoked st"
  "out (put s st) = out st @ [Text s]"
  by (simp_all add: put_def)

lemma print_err_fields [simp]:
  "cwd (print_err s st) = cwd st" "root (print_err s st) = root st"
  "files (print_err s st) = files st" "inp (print_err s st) = inp st"
  "invoked (print_err s st) = invoked st"
  "out (print_err s st) = out st @ [Line (''error: '' @ s)]"
  by (simp_all add: print_err_def)

lemma confirm_dirs:
  "confirm prompt st = (b, st') \<Longrightarrow> cwd st' = cwd st \<and> root st' = root st"
  by (auto simp: confirm_def split: list.splits)

lemma fold_put_dirs:
  "cwd (fold put ls st) = cwd st \<and> root (fold put ls st) = root st"
  by (induction ls arbitrary: st) auto

lemma fold_ls_item_dirs:
  "cwd (fold (ls_item a p) ns st) = cwd st \<and> root (fold (ls_item a p) ns st) = root st"
  by (induction ns arbitrary: st) (auto simp: ls_item_def)

lemma cmd_ls_dirs:
  "cwd (snd (cmd_ls st args)) = cwd st \<and> root (snd (cmd_ls st args)) = root st"
  by (simp add: cmd_ls_def Let_def fold_ls_item_dirs split: prod.splits)

lemma mkdir_loop_dirs:
  "cwd (snd (mkdir_loop st ds)) = cwd st \<and> root (snd (mkdir_loop st ds)) = root st"
  by (induction ds arbitrary: st) (auto split: prod.splits option.splits)

lemma rm_loop_dirs:
  "cwd (snd (rm_loop r st ps)) = cwd st \<and> root (snd (rm_loop r st ps)) = root st"
proof (induction ps arbitrary: st)
  case Nil
  show ?case by simp
next
  case (Cons p ps)
  show ?case
    using Cons.IH
    by (auto simp: Let_def split: prod.splits option.splits bool.splits dest: confirm_dirs)
qed

lemma touch_loop_dirs:
  "cwd (snd (touch_loop st fs)) = cwd st \<and> root (snd (touch_loop st fs)) = root st"
  by (induction fs arbitrary: st) (auto simp: Let_def split: prod.splits option.splits)

lemma cat_loop_dirs:
  "cwd (snd (cat_loop st fs)) = cwd st \<and> root (snd (cat_loop st fs)) = root st"
  by (induction fs arbitrary: st) (auto simp: Let_def split: sum.splits)

lemma read_n_lines_dirs:
  "cwd (snd (read_n_lines st p n t)) = cwd st \<and> root (snd (read_n_lines st p n t)) = root st"
  by (simp add: read_n_lines_def Let_def fold_put_dirs split: sum.splits)

lemma lines_loop_dirs:
  "cwd (snd (lines_loop t n st fs)) = cwd st \<and> root (snd (lines_loop t n st fs)) = root st"
proof (induction fs arbitrary: st)
  case Nil
  show ?case by simp
next
  case (Cons f fs)
  obtain e st' where r: "read_n_lines st (resolve_path st f) n t = (e, st')"
    by (cases "read_n_lines st (resolve_path st f) n t") auto
  have a: "cwd st' = cwd st \<and> root st' = root st"
    using read_n_lines_dirs [of st "resolve_path st f" n t] r by simp
  show ?case
  proof (cases "\<not> exists (files st) (resolve_path st f) \<or> \<not> is_file (files st) (resolve_path st f)")
    case True
    then show ?thesis
      using Cons.IH [of "print_err (''no such file: '' @ f) st"] by (simp add: Let_def)
  next
    case False
    then show ?thesis
      using Cons.IH [of st'] a r by (cases e) (simp_all add: Let_def)
  qed
qed

lemma resolve_path_invoked [simp]:
  "resolve_path (st\<lparr>invoked := x\<rparr>) s = resolve_path st s"
  by (simp add: resolve_path_def canonical_def Let_def)

lemma cd_target_invoked [simp]:
  "cd_target (st\<lparr>invoked := x\<rparr>) args = cd_target st args"
  by (simp add: cd_target_def split: list.splits)

lemma cmd_cd_root: "root (snd (cmd_cd st args)) = root st"
  by (simp add: cmd_cd_def Let_def)

lemma cmd_cp_dirs:
  "cwd (snd (cmd_cp env st args)) = cwd st \<and> root (snd (cmd_cp env st args)) = root st"
  by (auto simp: cmd_cp_def Let_def split: list.splits prod.splits option.splits)

lemma cmd_mv_dirs:
  "cwd (snd (cmd_mv env st args)) = cwd st \<and> root (snd (cmd_mv env st args)) = root st"
  by (auto simp: cmd_mv_def Let_def split: list.splits prod.splits option.splits)

lemma cmd_head_dirs:
  "cwd (snd (cmd_head st args)) = cwd st \<and> root (snd (cmd_head st args)) = root st"
  by (simp add: cmd_head_def lines_loop_dirs split: option.splits prod.splits)

lemma cmd_tail_dirs:
  "cwd (snd (cmd_tail st args)) = cwd st \<and> root (snd (cmd_tail st args)) = root st"
  by (simp add: cmd_tail_def lines_loop_dirs split: option.splits prod.splits)

lemma cmd_rm_dirs:
  "cwd (snd (cmd_rm st args)) = cwd st \<and> root (snd (cmd_rm st args)) = root st"
  by (simp add: cmd_rm_def rm_loop_dirs split: prod.splits)

lemma cmd_df_dirs:
  "cwd (snd (cmd_df env st args)) = cwd st \<and> root (snd (cmd_df env st args)) = root st"
  by (simp add: cmd_df_def split: sum.splits)

lemma cmd_mkdir_dirs:
  "cwd (snd (cmd_mkdir st args)) = cwd st \<and> root (snd (cmd_mkdir st args)) = root st"
  by (simp add: cmd_mkdir_def mkdir_loop_dirs)

lemma cmd_touch_dirs:
  "cwd (snd (cmd_touch st args)) = cwd st \<and> root (snd (cmd_touch st args)) = root st"
  by (simp add: cmd_touch_def touch_loop_dirs)

lemma cmd_cat_dirs:
  "cwd (snd (cmd_cat st args)) = cwd st \<and> root (snd (cmd_cat st args)) = root st"
  by (simp add: cmd_cat_def cat_loop_dirs)

lemma cmd_simple_dirs:
  "cwd (snd (cmd_help st args)) = cwd st \<and> root (snd (cmd_help st args)) = root st"
  "cwd (snd (cmd_pwd st args)) = cwd st \<and> root (snd (cmd_pwd st args)) = root st"
  "cwd (snd (cmd_echo st args)) = cwd st \<and> root (snd (cmd_echo st args)) = root st"
  "cwd (snd (cmd_ps env st args)) = cwd st \<and> root (snd (cmd_ps env st args)) = root st"
  "cwd (snd (cmd_sysmon env st args)) = cwd st \<and> root (snd (cmd_sysmon env st args)) = root st"
  "cwd (snd (cmd_history env st args)) = cwd st \<and> root (snd (cmd_history env st args)) = root st"
  "cwd (snd (cmd_exit st args)) = cwd st \<and> root (snd (cmd_exit st args)) = root st"
  by (simp_all add: cmd_help_def cmd_pwd_def cmd_echo_def cmd_ps_def cmd_sysmon_def
      cmd_history_def cmd_exit_def)

text \<open>Every registered handler keeps \<open>root\<close>, and every one but \<^verbatim>\<open>cd\<close> keeps \<open>cwd\<close>.\<close>

lemma registry_dirs:
  assumes "map_of (commands env) cmd = Some h"
  shows "root (snd (h st args)) = root st
         \<and> (cwd (snd (h st args)) = cwd st \<or> cmd = ''cd'' \<and> h = cmd_cd)"
proof -
  have "(cmd, h) \<in> set (commands env)"
    using assms by (rule map_of_SomeD)
  then show ?thesis
    unfolding commands_def
    by (auto simp: cmd_simple_dirs cmd_ls_dirs cmd_cd_root cmd_mkdir_dirs cmd_rm_dirs
        cmd_touch_dirs cmd_cat_dirs cmd_cp_dirs cmd_mv_dirs cmd_head_dirs cmd_tail_dirs
        cmd_df_dirs)
qed

lemma cmd_cd_cases:
  "cmd_cd st args =
     (if \<not> exists (files st) (cd_target st args) \<or> \<not> is_dir (files st) (cd_target st args)
        then (None, print_err ''no such directory'' st)
      else if \<not> relative_to (cd_target st args) (root st)
        then (None, print_err ''access outside project root is blocked'' st)
      else (None, st\<lparr>cwd := cd_target st args\<rparr>))"
  by (simp add: cmd_cd_def Let_def)

lemma execute_dirs:
  assumes "execute env st line = (x, st')"
  shows "root st' = root st
         \<and> (cwd st' = cwd st
            \<or> (\<exists>args. shlex_split line = Inr (''cd'' # args) \<and> cwd st' = cd_target st args)
              \<and> exists (files st) (cwd st') \<and> is_dir (files st) (cwd st')
              \<and> relative_to (cwd st') (root st) \<and> x = None \<and> out st' = out st)"
proof (cases "shlex_split line")
  case (Inl e)
  with assms show ?thesis by (auto simp: execute_def)
next
  case (Inr toks)
  show ?thesis
  proof (cases toks)
    case Nil
    with Inr assms show ?thesis by (auto simp: execute_def)
  next
    case (Cons cmd args)
    show ?thesis
    proof (cases "map_of (commands env) cmd")
      case None
      with Inr Cons assms show ?thesis by (auto simp: execute_def)
    next
      case (Some h)
      let ?s = "st\<lparr>invoked := invoked st @ [(cmd, args)]\<rparr>"
      obtain e s1 where h: "h ?s args = (e, s1)"
        by (cases "h ?s args") auto
      have st': "st' = s1 \<or> (\<exists>m. st' = print_err m s1)" and x: "e = None \<longrightarrow> x = None \<and> st' = s1"
        using assms Inr Cons Some h
        by (auto simp: execute_def split: option.splits exn.splits)
      have r: "root s1 = root st"
        and c: "cwd s1 = cwd st \<or> cmd = ''cd'' \<and> h = cmd_cd"
        using registry_dirs [OF Some, of ?s args] h by auto
      show ?thesis
      proof (cases "cwd s1 = cwd st")
        case True
        with r st' show ?thesis by auto
      next
        case False
        with c have cd: "cmd = ''cd''" "h = cmd_cd" by auto
        have "cmd_cd ?s args = (e, s1)" using h cd by simp
        with False have
          "e = None \<and> s1 = ?s\<lparr>cwd := cd_target st args\<rparr>
           \<and> exists (files st) (cd_target st args) \<and> is_dir (files st) (cd_target st args)
           \<and> relative_to (cd_target st args) (root st)"
          by (auto simp: cmd_cd_cases split: if_splits)
        with x r Inr Cons cd show ?thesis by auto
      qed
    qed
  qed
qed

lemma Terminal_start: "Terminal t stdin r = (x, st) \<Longrightarrow> cwd st = root st"
  by (auto simp: Terminal_def split: prod.splits)

lemma reachable_confined: "reachable env st \<Longrightarrow> relative_to (cwd st) (root st)"
proof (induction rule: reachable.induct)
  case (start t stdin r st)
  then show ?case by (simp add: Terminal_start relative_to_def)
next
  case (step st line x st')
  from execute_dirs [OF step.hyps(2)] step.IH show ?case by auto
next
  case (outside st t)
  then show ?case by simp
qed

lemmas fs_defs = resolve_path_def canonical_def resolve_def realpath_def MAXSYMLINKS_def
  readlink_def node_at_def parts_def is_absolute_def relative_to_def name_def exists_def
  is_dir_def is_file_def stat_def lstat_def entry_def

text \<open>
  C3. (1) In every session reachable from a fresh terminal by calls of \<^verbatim>\<open>execute\<close>, with the
  file system changing freely in between, \<open>cwd\<close> is \<open>root\<close> or lies below it. (2) \<open>root\<close>
  never changes, and a call of \<^verbatim>\<open>execute\<close> that changes \<open>cwd\<close> is a \<^verbatim>\<open>cd\<close> that returned without
  printing anything; the new \<open>cwd\<close> is the target of that \<^verbatim>\<open>cd\<close>, an existing directory that
  passed the re-check against \<open>root\<close>. (3) A \<^verbatim>\<open>cd\<close> whose target is missing, is not a
  directory or fails the re-check prints one error line and changes nothing else.
\<close>

theorem cwd_stays_in_sandbox:
  "(reachable env st \<longrightarrow> relative_to (cwd st) (root st))
   \<and> (execute env st line = (x, st') \<longrightarrow>
        root st' = root st
        \<and> (cwd st' \<noteq> cwd st \<longrightarrow>
             (\<exists>args. shlex_split line = Inr (''cd'' # args) \<and> cwd st' = cd_target st args)
             \<and> exists (files st) (cwd st') \<and> is_dir (files st) (cwd st')
             \<and> relative_to (cwd st') (root st) \<and> x = None \<and> out st' = out st))
   \<and> (shlex_split line = Inr (''cd'' # args)
        \<and> (\<not> exists (files st) (cd_target st args) \<or> \<not> is_dir (files st) (cd_target st args)
             \<or> \<not> relative_to (cd_target st args) (root st)) \<longrightarrow>
        execute env st line =
          (None, st\<lparr>out := out st @
                    [Line (if \<not> exists (files st) (cd_target st args)
                              \<or> \<not> is_dir (files st) (cd_target st args)
                           then ''error: no such directory''
                           else ''error: access outside project root is blocked'')],
                  invoked := invoked st @ [(''cd'', args)]\<rparr>))"
proof -
  have a: "reachable env st \<longrightarrow> relative_to (cwd st) (root st)"
    by (simp add: reachable_confined)
  have b: "execute env st line = (x, st') \<longrightarrow>
        root st' = root st
        \<and> (cwd st' \<noteq> cwd st \<longrightarrow>
             (\<exists>args. shlex_split line = Inr (''cd'' # args) \<and> cwd st' = cd_target st args)
             \<and> exists (files st) (cwd st') \<and> is_dir (files st) (cwd st')
             \<and> relative_to (cwd st') (root st) \<and> x = None \<and> out st' = out st)"
    using execute_dirs [of env st line x st'] by blast
  have cd: "map_of (commands env) ''cd'' = Some cmd_cd"
    by (simp add: commands_def)
  have c: "shlex_split line = Inr (''cd'' # args)
        \<and> (\<not> exists (files st) (cd_target st args) \<or> \<not> is_dir (files st) (cd_target st args)
             \<or> \<not> relative_to (cd_target st args) (root st)) \<longrightarrow>
        execute env st line =
          (None, st\<lparr>out := out st @
                    [Line (if \<not> exists (files st) (cd_target st args)
                              \<or> \<not> is_dir (files st) (cd_target st args)
                           then ''error: no such directory''
                           else ''error: access outside project root is blocked'')],
                  invoked := invoked st @ [(''cd'', args)]\<rparr>)"
    using cd by (auto simp: execute_def cmd_cd_cases print_err_def print_def)
  from a b c show ?thesis by blast
qed

lemma Terminal_sandbox: "Terminal [([''sandbox''], Dir)] [] [''sandbox''] = (None, sandbox)"
  by (simp add: Terminal_def sandbox_def mkdir_parents.simps os_mkdir_def fs_defs)

lemma cd_demo:
  "execute quiet_platform demo_sandbox ''cd demo'' =
     (None, demo_sandbox\<lparr>cwd := [''sandbox'', ''demo''], invoked := [(''cd'', [''demo''])]\<rparr>)"
  by (simp add: execute_def lexer_defs commands_def cmd_cd_cases cd_target_def demo_sandbox_def
      fs_defs)

lemma cd_nowhere:
  "shlex_split ''cd nowhere'' = Inr [''cd'', ''nowhere'']
   \<and> \<not> exists (files demo_sandbox) (cd_target demo_sandbox [''nowhere''])"
  by (simp add: lexer_defs cd_target_def demo_sandbox_def fs_defs)

theorem cwd_stays_in_sandbox_witness:
  "reachable quiet_platform sandbox \<and> relative_to (cwd sandbox) (root sandbox)
   \<and> execute quiet_platform demo_sandbox ''cd demo'' =
       (None, demo_sandbox\<lparr>cwd := [''sandbox'', ''demo''], invoked := [(''cd'', [''demo''])]\<rparr>)
   \<and> is_dir (files demo_sandbox) [''sandbox'', ''demo'']
   \<and> relative_to [''sandbox'', ''demo''] (root demo_sandbox)
   \<and> shlex_split ''cd nowhere'' = Inr [''cd'', ''nowhere'']
   \<and> \<not> exists (files demo_sandbox) (cd_target demo_sandbox [''nowhere''])
   \<and> execute quiet_platform demo_sandbox ''cd nowhere'' =
       (None, demo_sandbox\<lparr>out := [Line ''error: no such directory''],
                            invoked := [(''cd'', [''nowhere''])]\<rparr>)"
proof -
  have r: "reachable quiet_platform sandbox"
    using Terminal_sandbox by (rule reachable.start)
  have d: "cwd (demo_sandbox\<lparr>cwd := [''sandbox'', ''demo''], invoked := [(''cd'', [''demo''])]\<rparr>)
             \<noteq> cwd demo_sandbox"
    by (simp add: demo_sandbox_def)
  have e: "out demo_sandbox = []" "invoked demo_sandbox = []"
    by (simp_all add: demo_sandbox_def)
  show ?thesis
    using r cd_demo d cd_nowhere e
      cwd_stays_in_sandbox [of quiet_platform sandbox "''cd demo''" None sandbox "[]"]
      cwd_stays_in_sandbox [of quiet_platform demo_sandbox "''cd demo''" None
         "demo_sandbox\<lparr>cwd := [''sandbox'', ''demo''], invoked := [(''cd'', [''demo''])]\<rparr>" "[]"]
      cwd_stays_in_sandbox [of quiet_platform demo_sandbox "''cd nowhere''" None demo_sandbox
         "[''nowhere'']"]
    by simp
qed

section \<open>Path resolution\<close>

lemma joinrealpath_append:
  assumes "list_all proper xs"
    and "\<forall>q. prefix q (acc @ xs) \<and> length acc < length q \<longrightarrow> lk q = None"
  shows "joinrealpath n lk acc (xs @ rest) = joinrealpath n lk (acc @ xs) rest"
  using assms
proof (induction xs arbitrary: acc)
  case Nil
  show ?case by simp
next
  case (Cons c cs)
  have c: "c \<noteq> []" "c \<noteq> ''.''" "c \<noteq> ''..''"
    using Cons.prems(1) by (simp_all add: proper_def)
  have "lk (acc @ [c]) = None"
    using Cons.prems(2) by simp
  moreover have "joinrealpath n lk (acc @ [c]) (cs @ rest) = joinrealpath n lk ((acc @ [c]) @ cs) rest"
  proof (rule Cons.IH)
    show "list_all proper cs" using Cons.prems(1) by simp
    show "\<forall>q. prefix q ((acc @ [c]) @ cs) \<and> length (acc @ [c]) < length q \<longrightarrow> lk q = None"
      using Cons.prems(2) by simp
  qed
  ultimately show ?case using c by simp
qed

lemma joinrealpath_proper:
  "list_all proper acc \<Longrightarrow> list_all proper (joinrealpath n lk acc xs)"
proof (induction n lk acc xs rule: joinrealpath.induct)
  case (1 n lk acc)
  then show ?case by simp
next
  case (2 n lk acc c rest)
  have b: "list_all proper (butlast acc)"
    using "2.prems" by (auto simp: list_all_iff dest: in_set_butlastD)
  show ?case
  proof (cases "c = [] \<or> c = ''.''")
    case True
    with 2 show ?thesis by simp
  next
    case skip: False
    show ?thesis
    proof (cases "c = ''..''")
      case True
      with skip "2.IH"(2) b show ?thesis by simp
    next
      case up: False
      have "proper c"
        using skip up by (simp add: proper_def)
      then have p: "list_all proper (acc @ [c])"
        using "2.prems" by simp
      show ?thesis
      proof (cases "lk (acc @ [c])")
        case None
        with skip up "2.IH"(3) p show ?thesis by simp
      next
        case (Some target)
        show ?thesis
        proof (cases n)
          case 0
          with skip up Some "2.IH"(4) p show ?thesis by simp
        next
          case (Suc m)
          have "list_all proper (if is_absolute target then [] else acc)"
            using "2.prems" by simp
          with skip up Some Suc "2.IH"(5) show ?thesis by simp
        qed
      qed
    qed
  qed
qed


lemma realpath_id:
  assumes "list_all proper p" and "\<forall>q. prefix q p \<longrightarrow> readlink t q = None"
  shows "realpath t p = p"
  using joinrealpath_append [of p "[]" "readlink t" MAXSYMLINKS "[]"] assms
  by (simp add: realpath_def)

lemma realpath_parent:
  assumes "list_all proper p" and "\<forall>q. prefix q p \<longrightarrow> readlink t q = None"
  shows "realpath t (p @ [''..'']) = butlast p"
  using joinrealpath_append [of p "[]" "readlink t" MAXSYMLINKS "[''..'']"] assms
  by (simp add: realpath_def)

lemma realpath_proper: "list_all proper (realpath t p)"
  by (simp add: realpath_def joinrealpath_proper)







text \<open>
  C1 fails on the code. In the sandbox \<^verbatim>\<open>/sandbox\<close> that holds the symbolic link
  \<^verbatim>\<open>etc -> /etc\<close>, with \<open>cwd\<close> at the root, the input \<^verbatim>\<open>etc\<close> resolves to \<^verbatim>\<open>/etc\<close>: the first
  \<^verbatim>\<open>resolve()\<close> follows the link out of the sandbox, the clamp puts the name \<^verbatim>\<open>etc\<close> back
  under the root, and the second \<^verbatim>\<open>resolve()\<close> follows the same link again, with no check
  after it. \<^verbatim>\<open>ls etc\<close> then lists the directory outside, while \<^verbatim>\<open>cd etc\<close> is stopped by the
  re-check that \<^verbatim>\<open>cmd_cd\<close> alone performs.
\<close>

theorem symlink_escapes_resolver:
  "relative_to (cwd linked_sandbox) (root linked_sandbox)
   \<and> resolve_path linked_sandbox ''etc'' = [''etc'']
   \<and> \<not> relative_to (resolve_path linked_sandbox ''etc'') (root linked_sandbox)
   \<and> out (snd (execute quiet_platform linked_sandbox ''ls etc'')) = [Line ''passwd'']
   \<and> out (snd (execute quiet_platform linked_sandbox ''cd etc'')) =
       [Line ''error: access outside project root is blocked'']"
proof -
  have a: "resolve_path linked_sandbox ''etc'' = [''etc'']"
    by (simp add: linked_sandbox_def fs_defs)
  have b: "relative_to (cwd linked_sandbox) (root linked_sandbox)"
    "\<not> relative_to [''etc''] (root linked_sandbox)"
    by (simp_all add: linked_sandbox_def relative_to_def)
  have c: "out (snd (execute quiet_platform linked_sandbox ''ls etc'')) = [Line ''passwd'']"
    by code_simp
  have d: "out (snd (execute quiet_platform linked_sandbox ''cd etc'')) =
       [Line ''error: access outside project root is blocked'']"
    by (simp add: execute_def lexer_defs commands_def cmd_cd_cases cd_target_def
        linked_sandbox_def fs_defs)
  from a b c d show ?thesis by simp
qed

section \<open>Changing directory\<close>

lemma resolve_path_proper:
  "list_all proper (cwd st) \<Longrightarrow> list_all proper (resolve_path st s)"
  by (simp add: resolve_path_def canonical_def resolve_def realpath_proper Let_def)

lemma reachable_proper:
  "reachable env st \<Longrightarrow> list_all proper (cwd st) \<and> list_all proper (root st)"
proof (induction rule: reachable.induct)
  case (start t stdin r st)
  then show ?case
    by (auto simp: Terminal_def resolve_def realpath_proper split: prod.splits)
next
  case (step st line x st')
  have "cwd st' = cwd st \<or> (\<exists>args. cwd st' = cd_target st args)"
    using execute_dirs [OF step.hyps(2)] by auto
  moreover have "\<And>args. list_all proper (cd_target st args)"
    using step.IH by (simp add: cd_target_def resolve_path_proper split: list.splits)
  ultimately show ?case
    using step.IH execute_dirs [OF step.hyps(2)] by auto
next
  case (outside st t)
  then show ?case by simp
qed

lemma real_dir_prefix: "real_dir t p \<Longrightarrow> prefix q p \<Longrightarrow> node_at t q = Some Dir"
  by (simp add: real_dir_def list_all_iff)

lemma real_dir_readlink: "real_dir t p \<Longrightarrow> prefix q p \<Longrightarrow> readlink t q = None"
  by (simp add: readlink_def real_dir_prefix)

lemma real_dir_stat:
  assumes "real_dir t p" and "list_all proper p"
  shows "realpath t p = p" and "stat t p = Some Dir"
proof -
  show "realpath t p = p"
    using assms by (intro realpath_id) (simp_all add: real_dir_readlink)
  have "entry t p = p"
  proof (cases "p = []")
    case True
    then show ?thesis by (simp add: entry_def)
  next
    case False
    have "realpath t (butlast p) = butlast p"
    proof (rule realpath_id)
      show "list_all proper (butlast p)"
        using assms(2) by (auto simp: list_all_iff dest: in_set_butlastD)
      show "\<forall>q. prefix q (butlast p) \<longrightarrow> readlink t q = None"
        using assms(1) real_dir_readlink prefix_order.order_trans prefixeq_butlast by blast
    qed
    with False show ?thesis by (simp add: entry_def)
  qed
  then show "stat t p = Some Dir"
    using assms(1) by (simp add: stat_def lstat_def real_dir_prefix)
qed

lemma split_on_absent: "d \<notin> set s \<Longrightarrow> split_on d s = [s]"
  by (induction s) auto

lemma parts_filename: "proper c \<Longrightarrow> CHR ''/'' \<notin> set c \<Longrightarrow> parts c = [c] \<and> \<not> is_absolute c"
  by (cases c) (auto simp: parts_def split_on_absent proper_def is_absolute_def)

lemma cmd_cd_child:
  assumes "real_dir (files st) (cwd st @ [sub])" and "list_all proper (cwd st)"
    and "proper sub" and "CHR ''/'' \<notin> set sub" and "relative_to (cwd st) (root st)"
  shows "cmd_cd st [sub] = (None, st\<lparr>cwd := cwd st @ [sub]\<rparr>)"
proof -
  have p: "list_all proper (cwd st @ [sub])" using assms(2,3) by simp
  have "canonical st sub = cwd st @ [sub]"
    using parts_filename [OF assms(3,4)] real_dir_stat(1) [OF assms(1) p]
    by (simp add: canonical_def resolve_def)
  moreover have "sub \<noteq> []" using assms(3) by (simp add: proper_def)
  ultimately have "cd_target st [sub] = cwd st @ [sub]"
    using assms(5) by (simp add: cd_target_def resolve_path_def relative_to_def)
  then show ?thesis
    using real_dir_stat(2) [OF assms(1) p] assms(5)
    by (simp add: cmd_cd_cases exists_def is_dir_def relative_to_def)
qed

lemma cmd_cd_parent:
  assumes "real_dir (files st) (c @ [sub])" and "list_all proper (c @ [sub])"
    and "cwd st = c @ [sub]" and "relative_to c (root st)"
  shows "cmd_cd st [''..''] = (None, st\<lparr>cwd := c\<rparr>)"
proof -
  have "realpath (files st) ((c @ [sub]) @ [''..'']) = butlast (c @ [sub])"
    using assms(1,2) by (intro realpath_parent) (simp_all add: real_dir_readlink)
  then have "canonical st ''..'' = c"
    using assms(3) by (simp add: canonical_def resolve_def parts_def is_absolute_def)
  then have t: "cd_target st [''..''] = c"
    using assms(4) by (simp add: cd_target_def resolve_path_def)
  have "real_dir (files st) c"
    using assms(1) by (simp add: real_dir_def)
  moreover have "list_all proper c" using assms(2) by simp
  ultimately have "stat (files st) c = Some Dir" by (rule real_dir_stat(2))
  then show ?thesis
    using t assms(4) by (simp add: cmd_cd_cases exists_def is_dir_def)
qed

text \<open>
  C9, as the code has it. Take a reachable session and a file name \<open>sub\<close> (a single path component, other
  than \<^verbatim>\<open>.\<close> and \<^verbatim>\<open>..\<close>) such that \<^verbatim>\<open>cwd/sub\<close> is a directory of the file system, all
  ancestors being directories as well. Then a line that tokenizes to \<^verbatim>\<open>cd sub\<close> moves
  \<open>cwd\<close> to \<^verbatim>\<open>cwd/sub\<close>, and \<^verbatim>\<open>cd ..\<close> after it brings \<open>cwd\<close> back to its prior value; neither
  prints anything, and apart from the log of calls the session is the one before.
\<close>

theorem cd_round_trip:
  assumes "reachable env st"
    and "shlex_split line = Inr [''cd'', sub]"
    and "proper sub" and "CHR ''/'' \<notin> set sub"
    and "real_dir (files st) (cwd st @ [sub])"
  shows "execute env st line =
           (None, st\<lparr>cwd := cwd st @ [sub], invoked := invoked st @ [(''cd'', [sub])]\<rparr>)
         \<and> execute env (st\<lparr>cwd := cwd st @ [sub], invoked := invoked st @ [(''cd'', [sub])]\<rparr>)
               ''cd ..'' =
           (None, st\<lparr>invoked := invoked st @ [(''cd'', [sub]), (''cd'', [''..''])]\<rparr>)"
proof -
  let ?s0 = "st\<lparr>invoked := invoked st @ [(''cd'', [sub])]\<rparr>"
  let ?s1 = "st\<lparr>cwd := cwd st @ [sub], invoked := invoked st @ [(''cd'', [sub])]\<rparr>"
  let ?s2 = "?s1\<lparr>invoked := invoked ?s1 @ [(''cd'', [''..''])]\<rparr>"
  have pr: "list_all proper (cwd st)" and rel: "relative_to (cwd st) (root st)"
    using reachable_proper [OF assms(1)] reachable_confined [OF assms(1)] by simp_all
  have cd: "map_of (commands env) ''cd'' = Some cmd_cd"
    by (simp add: commands_def)
  have "cmd_cd ?s0 [sub] = (None, ?s0\<lparr>cwd := cwd ?s0 @ [sub]\<rparr>)"
    by (rule cmd_cd_child) (use assms pr rel in simp_all)
  then have a: "execute env st line = (None, ?s1)"
    using assms(2) cd by (simp add: execute_def)
  have "cmd_cd ?s2 [''..''] = (None, ?s2\<lparr>cwd := cwd st\<rparr>)"
    by (rule cmd_cd_parent [where sub = sub]) (use assms pr rel in simp_all)
  moreover have "shlex_split ''cd ..'' = Inr [''cd'', ''..'']"
    by (simp add: lexer_defs)
  ultimately have b: "execute env ?s1 ''cd ..'' =
      (None, st\<lparr>invoked := invoked st @ [(''cd'', [sub]), (''cd'', [''..''])]\<rparr>)"
    using cd by (simp add: execute_def)
  from a b show ?thesis by simp
qed

lemma reachable_demo_sandbox: "reachable quiet_platform demo_sandbox"
proof -
  have "reachable quiet_platform sandbox"
    using Terminal_sandbox by (rule reachable.start)
  then have "reachable quiet_platform (sandbox\<lparr>files := files demo_sandbox\<rparr>)"
    by (rule reachable.outside)
  moreover have "sandbox\<lparr>files := files demo_sandbox\<rparr> = demo_sandbox"
    by (simp add: sandbox_def demo_sandbox_def)
  ultimately show ?thesis by simp
qed

theorem cd_round_trip_witness:
  "reachable quiet_platform demo_sandbox
   \<and> shlex_split ''cd demo'' = Inr [''cd'', ''demo'']
   \<and> proper ''demo'' \<and> CHR ''/'' \<notin> set ''demo''
   \<and> real_dir (files demo_sandbox) (cwd demo_sandbox @ [''demo''])
   \<and> cwd (snd (execute quiet_platform demo_sandbox ''cd demo'')) = [''sandbox'', ''demo'']
   \<and> cwd (snd (execute quiet_platform (snd (execute quiet_platform demo_sandbox ''cd demo''))
                  ''cd ..'')) = cwd demo_sandbox"
proof -
  have a: "shlex_split ''cd demo'' = Inr [''cd'', ''demo'']"
    by (simp add: lexer_defs)
  have b: "proper ''demo''" "CHR ''/'' \<notin> set ''demo''"
    by (simp_all add: proper_def)
  have c: "real_dir (files demo_sandbox) (cwd demo_sandbox @ [''demo''])"
    by (simp add: real_dir_def demo_sandbox_def node_at_def)
  have d: "cwd demo_sandbox = [''sandbox'']"
    by (simp add: demo_sandbox_def)
  show ?thesis
    using reachable_demo_sandbox a b c d
      cd_round_trip [OF reachable_demo_sandbox a b c]
    by simp
qed


text \<open>
  C9 as stated fails for a directory below \<open>cwd\<close> that is not a child, and for a child
  that is a symbolic link to a directory: in the sandbox with \<^verbatim>\<open>a/b\<close> and \<^verbatim>\<open>sub -> a/b\<close>, both
  \<^verbatim>\<open>cd a/b\<close> and \<^verbatim>\<open>cd sub\<close> succeed, and \<^verbatim>\<open>cd ..\<close> then leads to \<^verbatim>\<open>/sandbox/a\<close>, not back to
  \<^verbatim>\<open>/sandbox\<close>.
\<close>

theorem cd_round_trip_counterexample:
  "is_dir (files nested_sandbox) (cwd nested_sandbox @ [''a'', ''b''])
   \<and> is_dir (files nested_sandbox) (cwd nested_sandbox @ [''sub''])
   \<and> cwd (snd (execute quiet_platform nested_sandbox ''cd a/b'')) = [''sandbox'', ''a'', ''b'']
   \<and> cwd (snd (execute quiet_platform (snd (execute quiet_platform nested_sandbox ''cd a/b''))
                  ''cd ..'')) \<noteq> cwd nested_sandbox
   \<and> cwd (snd (execute quiet_platform nested_sandbox ''cd sub'')) = [''sandbox'', ''a'', ''b'']
   \<and> cwd (snd (execute quiet_platform (snd (execute quiet_platform nested_sandbox ''cd sub''))
                  ''cd ..'')) \<noteq> cwd nested_sandbox"
  by code_simp

section \<open>Creating directories\<close>














section \<open>Commands over several paths\<close>

lemma resolve_path_out [simp]: "resolve_path (st\<lparr>out := x\<rparr>) s = resolve_path st s"
  by (simp add: resolve_path_def canonical_def Let_def)

lemma read_text_is_file:
  "read_text t p = (case stat t p of Some (File c) \<Rightarrow> Inr c | Some n \<Rightarrow> Inl (IsADirectoryError p)
                    | None \<Rightarrow> Inl (FileNotFoundError p))"
  "(exists t p \<and> is_file t p) = (\<exists>c. stat t p = Some (File c))"
  by (auto simp: read_text_def exists_def is_file_def split: option.splits node.splits)

lemma cat_item_out [simp]: "cat_item (st\<lparr>out := x\<rparr>) f = cat_item st f"
  by (simp add: cat_item_def)

lemma lines_item_out [simp]: "lines_item t n (st\<lparr>out := x\<rparr>) f = lines_item t n st f"
  by (simp add: lines_item_def)


















end
